theory Spec2Isabelle
  imports Main "HOL-Library.Word"
begin

section \<open>JavaScript values used by the utilities\<close>

text \<open>
  The utilities of the repository (\<open>formatDate\<close>, \<open>base64ToArrayBuffer\<close>,
  \<open>base64ToFile\<close>, \<open>getFileType\<close>) are TypeScript functions over strings.
  A string is modelled as a list of code units, each below 256 (\<^typ>\<open>char\<close>): this
  covers every ASCII and Latin-1 string; the binary strings that \<open>atob\<close> returns are
  exactly of this shape. Code units from 256 on are outside the model.

  A value read from an object can be \<open>undefined\<close>, a string, or one of the built-in
  objects that every object literal inherits from \<open>Object.prototype\<close>; the last kind
  is named by its path, for example \<open>Object\<close> or \<open>Object.prototype\<close>.
\<close>

datatype jsval = JUndefined | JString string | JBuiltin string

text \<open>\<open>ToBoolean\<close>: \<open>undefined\<close> and the empty string are falsy, objects are truthy.\<close>

fun ToBoolean :: "jsval \<Rightarrow> bool" where
  "ToBoolean JUndefined = False"
| "ToBoolean (JString s) = (s \<noteq> [])"
| "ToBoolean (JBuiltin b) = True"

text \<open>
  A Number is either \<open>NaN\<close> or, for all the numbers these utilities meet (calendar
  fields and code units), an integer far below \<open>2 ^ 53\<close>, where the arithmetic of
  doubles is exact.
\<close>

datatype jsnum = NaN | Num int

fun js_plus :: "jsnum \<Rightarrow> jsnum \<Rightarrow> jsnum" where
  "js_plus (Num a) (Num b) = Num (a + b)"
| "js_plus _ _ = NaN"

section \<open>String and array built-ins\<close>

text \<open>
  \<open>String.prototype.split\<close> with a one-character separator: a scan that closes the
  current segment at every separator. The result is never the empty array (the empty
  string splits into one empty segment).
\<close>

fun split_from :: "char \<Rightarrow> string \<Rightarrow> string \<Rightarrow> string list" where
  "split_from sep cur [] = [cur]"
| "split_from sep cur (c # cs) =
     (if c = sep then cur # split_from sep [] cs else split_from sep (cur @ [c]) cs)"

definition String_split :: "char \<Rightarrow> string \<Rightarrow> string list" where
  "String_split sep s = split_from sep [] s"

text \<open>\<open>Array.prototype.pop\<close>: the last element, \<open>undefined\<close> on the empty array.\<close>

definition Array_pop :: "'a list \<Rightarrow> 'a option" where
  "Array_pop xs = (if xs = [] then None else Some (last xs))"

text \<open>
  \<open>String.prototype.toLowerCase\<close> on code units below 256: the letters \<open>A\<close> to
  \<open>Z\<close> and the Latin-1 capitals \<open>U+00C0\<close> to \<open>U+00DE\<close> (but not the
  multiplication sign \<open>U+00D7\<close>) move up by 32, every other unit stays.
\<close>

definition toLowerCase_unit :: "char \<Rightarrow> char" where
  "toLowerCase_unit c =
     (let n = (of_char c :: nat) in
      if (65 \<le> n \<and> n \<le> 90) \<or> (192 \<le> n \<and> n \<le> 222 \<and> n \<noteq> 215)
      then char_of (n + 32) else c)"

definition toLowerCase :: "string \<Rightarrow> string" where
  "toLowerCase s = map toLowerCase_unit s"

section \<open>FileTypeClassifier: \<open>getFileType\<close>\<close>

text \<open>The object literal \<open>fileExtensions\<close>: its own properties, in source order.\<close>

definition fileExtensions_own :: "(string \<times> string) list" where
  "fileExtensions_own =
     [(''bmp'', ''image/bmp''),
      (''csv'', ''text/csv''),
      (''doc'', ''doc''),
      (''docx'', ''doc''),
      (''gif'', ''image/gif''),
      (''jpg'', ''image/jpg''),
      (''jpeg'', ''image/jpeg''),
      (''pptx'', ''ppt''),
      (''pdf'', ''application/pdf''),
      (''png'', ''image/png''),
      (''tiff'', ''image/tiff''),
      (''mp4'', ''video/mp4'')]"

text \<open>
  The properties an object literal inherits from \<open>Object.prototype\<close>. The lookup
  \<open>fileExtensions[extension]\<close> is an ordinary property read, so it finds them when the
  object has no own property of that name.
\<close>

definition Object_prototype_names :: "string list" where
  "Object_prototype_names =
     [''__defineGetter__'', ''__defineSetter__'', ''__lookupGetter__'', ''__lookupSetter__'',
      ''hasOwnProperty'', ''isPrototypeOf'', ''propertyIsEnumerable'', ''toLocaleString'',
      ''toString'', ''valueOf'']"

definition Object_prototype_get :: "string \<Rightarrow> jsval" where
  "Object_prototype_get key =
     (if key = ''constructor'' then JBuiltin ''Object''
      else if key = ''__proto__'' then JBuiltin ''Object.prototype''
      else if key \<in> set Object_prototype_names then JBuiltin (''Object.prototype.'' @ key)
      else JUndefined)"

definition fileExtensions :: "string \<Rightarrow> jsval" where
  "fileExtensions key =
     (case map_of fileExtensions_own key of
        Some label \<Rightarrow> JString label
      | None \<Rightarrow> Object_prototype_get key)"

text \<open>
  \<open>getFileType\<close>. \<open>extension\<close> is \<open>undefined\<close> (\<open>None\<close>) only when \<open>pop\<close> finds an
  empty array; then the condition is falsy and \<open>extension ?? ""\<close> is the empty string.
  Otherwise the condition is \<open>extension && fileExtensions[extension]\<close>, and the
  \<open>else\<close> branch returns \<open>extension\<close> itself.
\<close>

definition getFileType :: "string \<Rightarrow> jsval" where
  "getFileType filename =
     (let extension = map_option toLowerCase (Array_pop (String_split (CHR ''.'') filename)) in
      case extension of
        None \<Rightarrow> JString []
      | Some e \<Rightarrow>
          if ToBoolean (JString e) \<and> ToBoolean (fileExtensions e) then fileExtensions e
          else JString e)"

text \<open>The capital letters \<open>A\<close> to \<open>Z\<close>.\<close>

definition is_upper :: "char \<Rightarrow> bool" where
  "is_upper c = (65 \<le> (of_char c :: nat) \<and> (of_char c :: nat) \<le> 90)"

text \<open>The text after the final separator, as the specification words the extension.\<close>

definition after_last :: "char \<Rightarrow> string \<Rightarrow> string" where
  "after_last sep s = rev (takeWhile (\<lambda>c. c \<noteq> sep) (rev s))"

section \<open>DateFormatter: \<open>formatDate\<close>\<close>

text \<open>
  \<open>Number.prototype.toString\<close> for \<open>NaN\<close> and for integers (below \<open>10 ^ 21\<close> in
  magnitude, where no exponent is printed): the decimal digits, with a minus sign for a
  negative number.
\<close>

definition digit_char :: "nat \<Rightarrow> char" where
  "digit_char d = ''0123456789'' ! (d mod 10)"

fun digits :: "nat \<Rightarrow> string" where
  "digits n = (if n < 10 then [digit_char n] else digits (n div 10) @ [digit_char (n mod 10)])"

fun Number_toString :: "jsnum \<Rightarrow> string" where
  "Number_toString NaN = ''NaN''"
| "Number_toString (Num i) = (if i < 0 then CHR ''-'' # digits (nat (- i)) else digits (nat i))"

text \<open>
  \<open>String.prototype.padStart\<close> with a one-character filler: the filler is repeated
  in front while the string is shorter than the target length; a string that is long
  enough is returned as it is.
\<close>

definition padStart :: "nat \<Rightarrow> char \<Rightarrow> string \<Rightarrow> string" where
  "padStart targetLength padChar s = replicate (targetLength - length s) padChar @ s"

text \<open>
  A \<open>Date\<close> object, as far as \<open>formatDate\<close> reads it. Its time value is either
  \<open>NaN\<close> (an invalid date: every getter returns \<open>NaN\<close>) or a point in time, of which
  the getters return the calendar fields in the host's local time zone.
\<close>

record local_time =
  lt_year :: int
  lt_month :: int
  lt_date :: int
  lt_hours :: int
  lt_minutes :: int

datatype jsdate = InvalidDate | ValidDate local_time

fun getFullYear :: "jsdate \<Rightarrow> jsnum" where
  "getFullYear InvalidDate = NaN"
| "getFullYear (ValidDate t) = Num (lt_year t)"

fun getMonth :: "jsdate \<Rightarrow> jsnum" where
  "getMonth InvalidDate = NaN"
| "getMonth (ValidDate t) = Num (lt_month t)"

fun getDate :: "jsdate \<Rightarrow> jsnum" where
  "getDate InvalidDate = NaN"
| "getDate (ValidDate t) = Num (lt_date t)"

fun getHours :: "jsdate \<Rightarrow> jsnum" where
  "getHours InvalidDate = NaN"
| "getHours (ValidDate t) = Num (lt_hours t)"

fun getMinutes :: "jsdate \<Rightarrow> jsnum" where
  "getMinutes InvalidDate = NaN"
| "getMinutes (ValidDate t) = Num (lt_minutes t)"

text \<open>
  The ranges ECMAScript gives the getters of a valid date: the month index from 0 to 11,
  the day from 1 to 31, the hour from 0 to 23, the minute from 0 to 59, and a year
  between -271821 and 275760 (the time value is at most \<open>8.64e15\<close> milliseconds
  from the epoch).
\<close>

definition local_time_ok :: "local_time \<Rightarrow> bool" where
  "local_time_ok t =
     (- 271821 \<le> lt_year t \<and> lt_year t \<le> 275760 \<and>
      0 \<le> lt_month t \<and> lt_month t \<le> 11 \<and>
      1 \<le> lt_date t \<and> lt_date t \<le> 31 \<and>
      0 \<le> lt_hours t \<and> lt_hours t \<le> 23 \<and>
      0 \<le> lt_minutes t \<and> lt_minutes t \<le> 59)"

text \<open>
  \<open>formatDate\<close>. The host's \<open>new Date(inputDate)\<close>, which parses the string and
  fixes the time zone, is the parameter \<open>newDate\<close>. \<open>!inputDate\<close> holds of the
  empty string only. Neither the constructor nor a getter, \<open>toString\<close> or
  \<open>padStart\<close> throws, so the function has no error result.
\<close>

definition formatDate :: "(string \<Rightarrow> jsdate) \<Rightarrow> string \<Rightarrow> string" where
  "formatDate newDate inputDate =
     (if inputDate = [] then []
      else
        let date = newDate inputDate;
            year = getFullYear date;
            month = padStart 2 (CHR ''0'') (Number_toString (js_plus (getMonth date) (Num 1)));
            day = padStart 2 (CHR ''0'') (Number_toString (getDate date));
            hours = padStart 2 (CHR ''0'') (Number_toString (getHours date));
            minutes = padStart 2 (CHR ''0'') (Number_toString (getMinutes date))
        in Number_toString year @ ''/'' @ month @ ''/'' @ day @ '' '' @ hours @ '':'' @ minutes)"

text \<open>
  The display format \<open>YYYY/MM/DD HH:mm\<close> of the specification: sixteen characters,
  digits in the five fields and the separators between them.
\<close>

definition is_digit :: "char \<Rightarrow> bool" where
  "is_digit c = (c \<in> set ''0123456789'')"

definition matches_YYYY_MM_DD_HH_mm :: "string \<Rightarrow> bool" where
  "matches_YYYY_MM_DD_HH_mm s =
     (length s = 16 \<and>
      list_all is_digit (take 4 s) \<and> s ! 4 = CHR ''/'' \<and>
      list_all is_digit (take 2 (drop 5 s)) \<and> s ! 7 = CHR ''/'' \<and>
      list_all is_digit (take 2 (drop 8 s)) \<and> s ! 10 = CHR '' '' \<and>
      list_all is_digit (take 2 (drop 11 s)) \<and> s ! 13 = CHR '':'' \<and>
      list_all is_digit (take 2 (drop 14 s)))"

text \<open>
  A number written with exactly \<open>w\<close> decimal digits, most significant first: what
  "zero-padded to width \<open>w\<close>" means for a number below \<open>10 ^ w\<close>.
\<close>

fun fixed_width :: "nat \<Rightarrow> nat \<Rightarrow> string" where
  "fixed_width 0 n = []"
| "fixed_width (Suc w) n = fixed_width w (n div 10) @ [digit_char (n mod 10)]"

section \<open>BinaryCodec: \<open>base64ToArrayBuffer\<close> and \<open>base64ToFile\<close>\<close>

text \<open>
  The host's \<open>atob\<close> follows the "forgiving-base64 decode" of the WHATWG Infra
  standard: ASCII whitespace is removed; if the length is then a multiple of four, one
  or two \<open>=\<close> at the end are removed; a length that leaves remainder 1 modulo 4, or a
  character outside the base64 alphabet, is a failure (\<open>atob\<close> throws an
  \<open>InvalidCharacterError\<close>); the characters are then decoded six bits at a time into a
  buffer that is emptied into three bytes whenever it holds 24 bits; 12 or 18 bits left
  at the end give one or two bytes, the last 4 or 2 bits being discarded. The result
  is a binary string: one code unit below 256 for each byte.
\<close>

datatype DOMException = InvalidCharacterError

definition base64_alphabet :: string where
  "base64_alphabet = ''ABCDEFGHIJKLMNOPQRSTUVWXYZabcdefghijklmnopqrstuvwxyz0123456789+/''"

fun index_of :: "'a \<Rightarrow> 'a list \<Rightarrow> nat option" where
  "index_of x [] = None"
| "index_of x (y # ys) = (if x = y then Some 0 else map_option Suc (index_of x ys))"

definition base64_index :: "char \<Rightarrow> nat option" where
  "base64_index c = index_of c base64_alphabet"

definition is_ascii_whitespace :: "char \<Rightarrow> bool" where
  "is_ascii_whitespace c = (c \<in> set [CHR 0x09, CHR 0x0A, CHR 0x0C, CHR 0x0D, CHR 0x20])"

definition remove_padding :: "string \<Rightarrow> string" where
  "remove_padding d =
     (if 2 \<le> length d \<and> drop (length d - 2) d = ''=='' then take (length d - 2) d
      else if 1 \<le> length d \<and> drop (length d - 1) d = ''='' then take (length d - 1) d
      else d)"

fun decode_units :: "nat list \<Rightarrow> nat \<Rightarrow> nat \<Rightarrow> string \<Rightarrow> string" where
  "decode_units [] buffer bits output =
     (if bits = 12 then output @ [char_of (buffer div 16)]
      else if bits = 18 then output @ [char_of (buffer div 1024), char_of (buffer div 4 mod 256)]
      else output)"
| "decode_units (v # vs) buffer bits output =
     (let buffer' = buffer * 64 + v; bits' = bits + 6 in
      if bits' = 24
      then decode_units vs 0 0
             (output @ [char_of (buffer' div 65536), char_of (buffer' div 256 mod 256),
                        char_of (buffer' mod 256)])
      else decode_units vs buffer' bits' output)"

text \<open>The text that is decoded: whitespace and final padding removed.\<close>

definition base64_payload :: "string \<Rightarrow> string" where
  "base64_payload data =
     (let stripped = filter (\<lambda>c. \<not> is_ascii_whitespace c) data in
      if length stripped mod 4 = 0 then remove_padding stripped else stripped)"

definition atob :: "string \<Rightarrow> DOMException + string" where
  "atob data =
     (let payload = base64_payload data in
      if length payload mod 4 = 1 then Inl InvalidCharacterError
      else case those (map base64_index payload) of
             None \<Rightarrow> Inl InvalidCharacterError
           | Some vs \<Rightarrow> Inr (decode_units vs 0 0 []))"

text \<open>
  \<open>charCodeAt\<close> is \<open>NaN\<close> outside the string; storing a Number into a
  \<open>Uint8Array\<close> converts it modulo 256, and \<open>NaN\<close> to 0.
\<close>

definition charCodeAt :: "string \<Rightarrow> nat \<Rightarrow> jsnum" where
  "charCodeAt s i = (if i < length s then Num (int (of_char (s ! i))) else NaN)"

fun ToUint8 :: "jsnum \<Rightarrow> 8 word" where
  "ToUint8 NaN = 0"
| "ToUint8 (Num n) = word_of_int n"

text \<open>
  \<open>base64ToArrayBuffer\<close>. An exception of \<open>atob\<close> is not caught, so it is the
  function's own result. The \<open>for\<close> loop writes \<open>bytes[i]\<close> for \<open>i\<close> from 0 up
  to the length of the binary string; \<open>new Uint8Array(length)\<close> starts with zeros.
\<close>

function fill_bytes :: "string \<Rightarrow> nat \<Rightarrow> 8 word list \<Rightarrow> 8 word list" where
  "fill_bytes binaryString i bytes =
     (if i < length binaryString
      then fill_bytes binaryString (i + 1) (bytes[i := ToUint8 (charCodeAt binaryString i)])
      else bytes)"
  by pat_completeness auto
termination
  by (relation "measure (\<lambda>(binaryString, i, bytes). length binaryString - i)") auto

definition base64ToArrayBuffer :: "string \<Rightarrow> DOMException + 8 word list" where
  "base64ToArrayBuffer base64 =
     (case atob base64 of
        Inl e \<Rightarrow> Inl e
      | Inr binaryString \<Rightarrow>
          let len = length binaryString;
              bytes = replicate len 0
          in Inr (fill_bytes binaryString 0 bytes))"

text \<open>
  \<open>base64ToFile\<close>. A string given to the \<open>Blob\<close> constructor is stored in its
  UTF-8 encoding: a code unit below 128 is one byte, a code unit from 128 to 255 is two
  bytes. The \<open>File\<close> takes the blob's bytes and the name as given; no type is set.
\<close>

definition utf8_encode_unit :: "char \<Rightarrow> 8 word list" where
  "utf8_encode_unit c =
     (let n = (of_char c :: nat) in
      if n < 128 then [of_nat n] else [of_nat (192 + n div 64), of_nat (128 + n mod 64)])"

definition Blob_of_string :: "string \<Rightarrow> 8 word list" where
  "Blob_of_string s = concat (map utf8_encode_unit s)"

record File =
  file_name :: string
  file_type :: string
  file_bytes :: "8 word list"

definition new_File :: "8 word list list \<Rightarrow> string \<Rightarrow> File" where
  "new_File parts filename =
     \<lparr>file_name = filename, file_type = [], file_bytes = concat parts\<rparr>"

definition base64ToFile :: "string \<Rightarrow> string \<Rightarrow> DOMException + File" where
  "base64ToFile base64 filename =
     (case atob base64 of
        Inl e \<Rightarrow> Inl e
      | Inr binaryString \<Rightarrow>
          let blob = Blob_of_string binaryString;
              file = new_File [blob] filename
          in Inr file)"

text \<open>
  The byte a \<open>Uint8Array\<close> holds after a code unit is stored in it, and the code unit
  with a byte's value.
\<close>

definition byte_of_unit :: "char \<Rightarrow> 8 word" where
  "byte_of_unit c = of_nat (of_char c)"

definition unit_of_byte :: "8 word \<Rightarrow> char" where
  "unit_of_byte x = char_of (unat x)"

text \<open>
  The reference encoder of the round-trip law: standard base64 (RFC 4648) with
  padding. Three bytes give four characters; one or two bytes left at the end give two
  or three characters and \<open>=\<close> up to four.
\<close>

definition base64_char :: "nat \<Rightarrow> char" where
  "base64_char v = base64_alphabet ! v"

fun encodeBase64 :: "8 word list \<Rightarrow> string" where
  "encodeBase64 [] = []"
| "encodeBase64 [a] =
     [base64_char (unat a div 4), base64_char (unat a mod 4 * 16), CHR ''='', CHR ''='']"
| "encodeBase64 [a, b] =
     [base64_char (unat a div 4), base64_char (unat a mod 4 * 16 + unat b div 16),
      base64_char (unat b mod 16 * 4), CHR ''='']"
| "encodeBase64 (a # b # c # rest) =
     [base64_char (unat a div 4), base64_char (unat a mod 4 * 16 + unat b div 16),
      base64_char (unat b mod 16 * 4 + unat c div 64), base64_char (unat c mod 64)]
     @ encodeBase64 rest"

section \<open>Properties of the classifier\<close>

lemma split_from_not_empty: "split_from sep cur s \<noteq> []"
  by (induction s arbitrary: cur) auto

lemma last_split_from:
  "last (split_from sep cur s) = (if sep \<in> set s then after_last sep s else cur @ s)"
proof (induction s arbitrary: cur)
  case Nil
  then show ?case by simp
next
  case (Cons c cs)
  show ?case
  proof (cases "c = sep")
    case True
    then show ?thesis
      using Cons.IH [of "[]"] split_from_not_empty [of sep "[]" cs]
      by (auto simp: after_last_def takeWhile_append)
  next
    case False
    then show ?thesis
      using Cons.IH [of "cur @ [c]"]
      by (auto simp: after_last_def takeWhile_append)
  qed
qed

lemma pop_split:
  "Array_pop (String_split sep s) = Some (if sep \<in> set s then after_last sep s else s)"
  by (simp add: Array_pop_def String_split_def split_from_not_empty last_split_from)

text \<open>
  \<open>pop\<close> never returns \<open>undefined\<close> here: the extension is the text after the last
  dot, and the whole file name when there is no dot.
\<close>

lemma getFileType_extension:
  "getFileType filename =
     (let e = toLowerCase (if CHR ''.'' \<in> set filename then after_last (CHR ''.'') filename
                           else filename) in
      if e \<noteq> [] \<and> ToBoolean (fileExtensions e) then fileExtensions e else JString e)"
  by (simp add: getFileType_def pop_split Let_def)

lemma toLowerCase_Nil: "toLowerCase [] = []"
  by (simp add: toLowerCase_def)

lemma after_last_snoc: "after_last sep (s @ [sep]) = []"
  by (simp add: after_last_def)

lemma toLowerCase_unit_not_upper: "\<not> is_upper (toLowerCase_unit c)"
  by (auto simp: toLowerCase_unit_def is_upper_def Let_def)

lemma toLowerCase_no_upper: "list_all (\<lambda>c. \<not> is_upper c) (toLowerCase s)"
  by (induction s) (simp_all add: toLowerCase_def toLowerCase_unit_not_upper)

lemma Object_prototype_names_upper:
  "key \<in> set Object_prototype_names \<Longrightarrow> \<not> list_all (\<lambda>c. \<not> is_upper c) key"
  by (auto simp: Object_prototype_names_def is_upper_def)

text \<open>
  Of the inherited properties only \<open>constructor\<close> and \<open>__proto__\<close> are written
  without a capital letter, so only these two can be reached by a lowercased key.
\<close>

lemma Object_prototype_get_lower:
  "Object_prototype_get (toLowerCase s) =
     (if toLowerCase s = ''constructor'' then JBuiltin ''Object''
      else if toLowerCase s = ''__proto__'' then JBuiltin ''Object.prototype''
      else JUndefined)"
  using Object_prototype_names_upper [of "toLowerCase s"] toLowerCase_no_upper [of s]
  by (auto simp: Object_prototype_get_def)

lemma fileExtensions_own_label:
  "map_of fileExtensions_own key = Some label \<Longrightarrow> label \<noteq> []"
  by (auto simp: fileExtensions_own_def split: if_splits)

lemma fileExtensions_own_Nil: "map_of fileExtensions_own [] = None"
  by (simp add: fileExtensions_own_def)

text \<open>
  What the classifier does for a file name with a dot, away from the two inherited
  keys: the label of the table if the lowercased last segment is a key of the table,
  and the lowercased last segment itself otherwise.
\<close>

lemma getFileType_dotted:
  assumes "CHR ''.'' \<in> set filename"
      and "toLowerCase (after_last (CHR ''.'') filename) \<noteq> ''constructor''"
      and "toLowerCase (after_last (CHR ''.'') filename) \<noteq> ''__proto__''"
  shows "getFileType filename =
           (case map_of fileExtensions_own (toLowerCase (after_last (CHR ''.'') filename)) of
              Some label \<Rightarrow> JString label
            | None \<Rightarrow> JString (toLowerCase (after_last (CHR ''.'') filename)))"
  using assms
  by (auto simp: getFileType_extension fileExtensions_def Object_prototype_get_lower Let_def
      fileExtensions_own_Nil
      dest: fileExtensions_own_label split: option.splits)

text \<open>
  Without a dot the whole file name is the extension, so the empty string is returned
  for the empty file name only.
\<close>

lemma toLowerCase_eq_Nil: "toLowerCase s = [] \<longleftrightarrow> s = []"
  by (simp add: toLowerCase_def)

lemma fileExtensions_truthy_not_empty:
  "ToBoolean (fileExtensions e) \<Longrightarrow> fileExtensions e \<noteq> JString []"
  by (cases "fileExtensions e") auto

lemma getFileType_no_dot_empty_iff:
  assumes "CHR ''.'' \<notin> set filename"
  shows "getFileType filename = JString [] \<longleftrightarrow> filename = []"
  using assms
  by (auto simp: getFileType_extension Let_def toLowerCase_eq_Nil toLowerCase_Nil
      dest: fileExtensions_truthy_not_empty)

lemma getFileType_examples:
  "getFileType ''photo.JPG'' = JString ''image/jpg''"
  "getFileType ''archive.tar.gz'' = JString ''gz''"
  "getFileType ''notes.docx'' = JString ''doc''"
  by code_simp+

text \<open>
  Claim C1. For a file name without a dot the specification promises the empty string,
  with \<open>classify("README") == ""\<close> as its example. The code takes the whole name as
  the extension: \<open>"README".split('.')\<close> is the one-element array \<open>["README"]\<close>,
  \<open>pop\<close> returns \<open>"README"\<close>, and since \<open>"readme"\<close> is not in the table the
  lowercased name comes back. (By lemma \<open>getFileType_no_dot_empty_iff\<close> the same
  holds of every non-empty name without a dot: none gives the empty string.)
\<close>

theorem getFileType_README: "getFileType ''README'' = JString ''readme''"
  by code_simp

text \<open>
  Claim C4. For a file name with a dot the specification promises the table's label or
  else the lowercased last segment. The table is an object literal, read with
  \<open>fileExtensions[extension]\<close>: for the last segment \<open>constructor\<close> the read finds the
  inherited property \<open>Object.prototype.constructor\<close>, which is truthy, and
  \<open>getFileType\<close> returns the function \<open>Object\<close> instead of the string
  \<open>"constructor"\<close>. (Lemma \<open>getFileType_dotted\<close> above is the claim for every
  other last segment but \<open>__proto__\<close>.)
\<close>

theorem getFileType_constructor: "getFileType ''a.constructor'' = JBuiltin ''Object''"
  by code_simp

text \<open>
  Claim C10. \<open>getFileType("")\<close> is the empty string, and so is the result for every
  file name that ends with a dot: the last segment is empty, hence falsy, and the
  \<open>else\<close> branch returns it.
\<close>

theorem getFileType_empty_segment:
  "getFileType [] = JString [] \<and> getFileType (s @ ''.'') = JString []"
  by (simp add: getFileType_extension after_last_snoc toLowerCase_Nil)

theorem getFileType_empty_segment_witness:
  "getFileType [] = JString [] \<and> getFileType (''notes'' @ ''.'') = JString []"
  by (rule getFileType_empty_segment)

section \<open>Properties of the date formatter\<close>

declare digits.simps [simp del]

lemma digit_char_mod: "digit_char (n mod 10) = digit_char n"
  by (simp add: digit_char_def)

lemma digits_one: "n < 10 \<Longrightarrow> digits n = [digit_char n]"
  by (subst digits.simps) simp

lemma digits_step: "10 \<le> n \<Longrightarrow> digits n = digits (n div 10) @ [digit_char n]"
  by (subst digits.simps) (simp add: digit_char_mod)

lemma fixed_width_Suc: "fixed_width (Suc w) n = fixed_width w (n div 10) @ [digit_char n]"
  by (simp add: digit_char_mod)

text \<open>A number with exactly \<open>w + 1\<close> digits is printed with these digits.\<close>

lemma digits_fixed_width:
  "10 ^ w \<le> n \<Longrightarrow> n < 10 ^ Suc w \<Longrightarrow> digits n = fixed_width (Suc w) n"
proof (induction w arbitrary: n)
  case 0
  then show ?case by (simp add: digits_one digit_char_mod)
next
  case (Suc w)
  have lo: "10 ^ w \<le> n div 10" using Suc.prems(1) by simp
  have hi: "n div 10 < 10 ^ Suc w" using Suc.prems(2) by simp
  have "(10::nat) \<le> 10 * 10 ^ w" by simp
  also have "\<dots> \<le> n" using Suc.prems(1) by simp
  finally have "10 \<le> n" .
  then have "digits n = digits (n div 10) @ [digit_char n]" by (rule digits_step)
  also have "digits (n div 10) = fixed_width (Suc w) (n div 10)" using lo hi by (rule Suc.IH)
  finally show ?case by (simp only: fixed_width_Suc)
qed

lemma digits_four: "1000 \<le> n \<Longrightarrow> n < 10000 \<Longrightarrow> digits n = fixed_width 4 n"
  using digits_fixed_width [of 3 n] by (simp del: fixed_width.simps)

lemma padStart_two: "n < 100 \<Longrightarrow> padStart 2 (CHR ''0'') (digits n) = fixed_width 2 n"
proof (cases "n < 10")
  case True
  then have "digits n = [digit_char n]" by (rule digits_one)
  moreover have "fixed_width 2 n = [digit_char 0, digit_char n]"
    using True by (simp add: numeral_2_eq_2 digit_char_mod)
  moreover have "digit_char 0 = CHR ''0''" by (simp add: digit_char_def)
  ultimately show ?thesis by (simp add: padStart_def)
next
  case False
  assume "n < 100"
  with False have "digits n = fixed_width (Suc 1) n"
    by (intro digits_fixed_width) simp_all
  then have "digits n = fixed_width 2 n" by (simp only: numeral_2_eq_2 One_nat_def)
  moreover have "length (fixed_width 2 n) = 2" by (simp add: numeral_2_eq_2)
  ultimately show ?thesis by (simp add: padStart_def)
qed

lemma is_digit_digit_char: "is_digit (digit_char d)"
proof -
  have "d mod 10 < length ''0123456789''" by simp
  then have "''0123456789'' ! (d mod 10) \<in> set ''0123456789''" by (rule nth_mem)
  then show ?thesis by (simp only: is_digit_def digit_char_def)
qed

lemma length_fixed_width: "length (fixed_width w n) = w"
  by (induction w arbitrary: n) simp_all

lemma all_digits_fixed_width: "list_all is_digit (fixed_width w n)"
  by (induction w arbitrary: n) (simp_all add: is_digit_digit_char)

lemma fixed_width_two: "fixed_width 2 n = [digit_char (n div 10), digit_char n]"
  by (simp add: numeral_2_eq_2 digit_char_mod)

lemma fixed_width_four:
  "fixed_width 4 n =
     [digit_char (n div 1000), digit_char (n div 100), digit_char (n div 10), digit_char n]"
proof -
  have "fixed_width (Suc (Suc (Suc (Suc 0)))) n =
     [digit_char (n div 1000), digit_char (n div 100), digit_char (n div 10), digit_char n]"
    by (simp add: digit_char_mod div_mult2_eq [symmetric])
  moreover have "Suc (Suc (Suc (Suc 0))) = 4" by simp
  ultimately show ?thesis by (simp only:)
qed

lemma matches_fields:
  assumes "length y = 4" "length m = 2" "length d = 2" "length h = 2" "length mi = 2"
      and "list_all is_digit y" "list_all is_digit m" "list_all is_digit d"
          "list_all is_digit h" "list_all is_digit mi"
  shows "matches_YYYY_MM_DD_HH_mm (y @ ''/'' @ m @ ''/'' @ d @ '' '' @ h @ '':'' @ mi)"
  using assms by (simp add: matches_YYYY_MM_DD_HH_mm_def nth_append)

text \<open>
  Claim C9. For a non-empty input that the host cannot parse, the date is invalid,
  every getter returns \<open>NaN\<close>, \<open>NaN + 1\<close> is \<open>NaN\<close>, its string \<open>"NaN"\<close> is
  longer than the padding width, and \<open>formatDate\<close> returns \<open>"NaN/NaN/NaN NaN:NaN"\<close>.
\<close>

theorem formatDate_invalid:
  "inputDate \<noteq> [] \<Longrightarrow> newDate inputDate = InvalidDate \<Longrightarrow>
     formatDate newDate inputDate = ''NaN/NaN/NaN NaN:NaN''"
  by (simp add: formatDate_def padStart_def)

theorem formatDate_invalid_witness:
  "''not a date'' \<noteq> [] \<and> (\<lambda>s. InvalidDate) ''not a date'' = InvalidDate \<and>
   formatDate (\<lambda>s. InvalidDate) ''not a date'' = ''NaN/NaN/NaN NaN:NaN''"
  using formatDate_invalid [of "''not a date''" "\<lambda>s. InvalidDate"] by simp

text \<open>
  Claim C3, as the specification states it: an input that is empty or does not parse
  gives the empty string. It fails for the input \<open>"tomorrow"\<close>, which the host does
  not parse: the result is the sentinel string, not the empty string.
\<close>

theorem formatDate_unparsed_not_empty:
  "(\<lambda>s. InvalidDate) ''tomorrow'' = InvalidDate \<and>
   formatDate (\<lambda>s. InvalidDate) ''tomorrow'' = ''NaN/NaN/NaN NaN:NaN'' \<and>
   formatDate (\<lambda>s. InvalidDate) ''tomorrow'' \<noteq> []"
  by (simp add: formatDate_def padStart_def)

text \<open>
  Claim C3, amended: \<open>formatDate\<close> returns the empty string for the empty input and
  for no other input, whatever the host makes of the string; it has no error result,
  so it never throws.
\<close>

theorem formatDate_empty_iff: "formatDate newDate inputDate = [] \<longleftrightarrow> inputDate = []"
  by (simp add: formatDate_def Let_def)

theorem formatDate_empty_iff_witness:
  "formatDate (\<lambda>s. InvalidDate) [] = [] \<and> formatDate (\<lambda>s. InvalidDate) ''tomorrow'' \<noteq> []"
  using formatDate_empty_iff [of "\<lambda>s. InvalidDate" "[]"]
    formatDate_empty_iff [of "\<lambda>s. InvalidDate" "''tomorrow''"]
  by simp

text \<open>
  Claim C8, as the specification states it: every non-empty string that parses to a
  valid date is formatted as \<open>YYYY/MM/DD HH:mm\<close> with a four-digit year. It fails for
  \<open>"0099-01-01T00:00:00"\<close>, a valid date whose local year is 99: the year is printed
  without padding, and the result \<open>"99/01/01 00:00"\<close> does not match the pattern.
\<close>

theorem formatDate_year_99:
  "local_time_ok \<lparr>lt_year = 99, lt_month = 0, lt_date = 1, lt_hours = 0, lt_minutes = 0\<rparr> \<and>
   formatDate
     (\<lambda>s. ValidDate \<lparr>lt_year = 99, lt_month = 0, lt_date = 1, lt_hours = 0, lt_minutes = 0\<rparr>)
     ''0099-01-01T00:00:00'' = ''99/01/01 00:00'' \<and>
   \<not> matches_YYYY_MM_DD_HH_mm ''99/01/01 00:00''"
  by code_simp

text \<open>
  Claim C8, amended: for every non-empty string that parses to a valid date whose
  local year is between 1000 and 9999, \<open>formatDate\<close> returns the four digits of the
  year, the month (counted from 1), the day, the hour and the minute, each of the last
  four written with two digits, separated as in \<open>YYYY/MM/DD HH:mm\<close>; the result
  matches that pattern.
\<close>

theorem formatDate_valid:
  assumes "inputDate \<noteq> []" and "newDate inputDate = ValidDate t" and "local_time_ok t"
      and "1000 \<le> lt_year t" and "lt_year t \<le> 9999"
  shows "formatDate newDate inputDate =
           fixed_width 4 (nat (lt_year t)) @ ''/'' @ fixed_width 2 (nat (lt_month t + 1)) @ ''/'' @
           fixed_width 2 (nat (lt_date t)) @ '' '' @ fixed_width 2 (nat (lt_hours t)) @ '':'' @
           fixed_width 2 (nat (lt_minutes t)) \<and>
         matches_YYYY_MM_DD_HH_mm (formatDate newDate inputDate)"
proof -
  have y: "digits (nat (lt_year t)) = fixed_width 4 (nat (lt_year t))"
    using assms(4,5) by (intro digits_four) auto
  have m: "padStart 2 (CHR ''0'') (digits (nat (lt_month t + 1))) =
             fixed_width 2 (nat (lt_month t + 1))"
    using assms(3) by (intro padStart_two) (auto simp: local_time_ok_def)
  have d: "padStart 2 (CHR ''0'') (digits (nat (lt_date t))) = fixed_width 2 (nat (lt_date t))"
    using assms(3) by (intro padStart_two) (auto simp: local_time_ok_def)
  have h: "padStart 2 (CHR ''0'') (digits (nat (lt_hours t))) = fixed_width 2 (nat (lt_hours t))"
    using assms(3) by (intro padStart_two) (auto simp: local_time_ok_def)
  have mi: "padStart 2 (CHR ''0'') (digits (nat (lt_minutes t))) =
              fixed_width 2 (nat (lt_minutes t))"
    using assms(3) by (intro padStart_two) (auto simp: local_time_ok_def)
  have nonneg: "\<not> lt_year t < 0" "\<not> lt_month t + 1 < 0" "\<not> lt_date t < 0"
    "\<not> lt_hours t < 0" "\<not> lt_minutes t < 0"
    using assms(3,4) by (auto simp: local_time_ok_def)
  have eq: "formatDate newDate inputDate =
           fixed_width 4 (nat (lt_year t)) @ ''/'' @ fixed_width 2 (nat (lt_month t + 1)) @ ''/'' @
           fixed_width 2 (nat (lt_date t)) @ '' '' @ fixed_width 2 (nat (lt_hours t)) @ '':'' @
           fixed_width 2 (nat (lt_minutes t))"
    using assms(1,2) nonneg by (simp add: formatDate_def y m d h mi del: fixed_width.simps)
  have "matches_YYYY_MM_DD_HH_mm (formatDate newDate inputDate)"
    unfolding eq by (rule matches_fields) (simp_all only: length_fixed_width all_digits_fixed_width)
  with eq show ?thesis by simp
qed

theorem formatDate_valid_witness:
  "''2023-01-05T09:03:00'' \<noteq> [] \<and>
   local_time_ok \<lparr>lt_year = 2023, lt_month = 0, lt_date = 5, lt_hours = 9, lt_minutes = 3\<rparr> \<and>
   formatDate
     (\<lambda>s. ValidDate \<lparr>lt_year = 2023, lt_month = 0, lt_date = 5, lt_hours = 9, lt_minutes = 3\<rparr>)
     ''2023-01-05T09:03:00'' = ''2023/01/05 09:03'' \<and>
   matches_YYYY_MM_DD_HH_mm ''2023/01/05 09:03''"
  using formatDate_valid [of "''2023-01-05T09:03:00''"
      "\<lambda>s. ValidDate \<lparr>lt_year = 2023, lt_month = 0, lt_date = 5, lt_hours = 9, lt_minutes = 3\<rparr>"
      "\<lparr>lt_year = 2023, lt_month = 0, lt_date = 5, lt_hours = 9, lt_minutes = 3\<rparr>"]
  by (auto simp add: local_time_ok_def fixed_width_two fixed_width_four digit_char_def
      simp del: fixed_width.simps)

section \<open>Properties of the binary codec\<close>

declare fill_bytes.simps [simp del]

lemma ToUint8_charCodeAt: "i < length s \<Longrightarrow> ToUint8 (charCodeAt s i) = byte_of_unit (s ! i)"
  by (simp add: charCodeAt_def byte_of_unit_def)

lemma fill_bytes_eq:
  "length bytes = length s \<Longrightarrow> i \<le> length s \<Longrightarrow>
     fill_bytes s i bytes = take i bytes @ map byte_of_unit (drop i s)"
proof (induction s i bytes rule: fill_bytes.induct)
  case (1 s i bytes)
  show ?case
  proof (cases "i < length s")
    case True
    have "fill_bytes s i bytes = fill_bytes s (i + 1) (bytes[i := ToUint8 (charCodeAt s i)])"
      using True by (subst fill_bytes.simps) simp
    also have "\<dots> = take (i + 1) (bytes[i := ToUint8 (charCodeAt s i)]) @ map byte_of_unit (drop (i + 1) s)"
      using True "1.prems" by (intro "1.IH") simp_all
    also have "take (i + 1) (bytes[i := ToUint8 (charCodeAt s i)]) = take i bytes @ [byte_of_unit (s ! i)]"
      using True "1.prems" by (simp add: take_Suc_conv_app_nth ToUint8_charCodeAt)
    also have "(take i bytes @ [byte_of_unit (s ! i)]) @ map byte_of_unit (drop (i + 1) s) =
               take i bytes @ map byte_of_unit (drop i s)"
      using True by (simp add: Cons_nth_drop_Suc [symmetric])
    finally show ?thesis .
  next
    case False
    with "1.prems" show ?thesis by (subst fill_bytes.simps) simp
  qed
qed

lemma base64ToArrayBuffer_eq:
  "base64ToArrayBuffer base64 =
     (case atob base64 of Inl e \<Rightarrow> Inl e | Inr binaryString \<Rightarrow> Inr (map byte_of_unit binaryString))"
  by (simp add: base64ToArrayBuffer_def fill_bytes_eq split: sum.splits)

lemma length_decode_units:
  "bits = 0 \<or> bits = 6 \<or> bits = 12 \<or> bits = 18 \<Longrightarrow>
     length (decode_units vs buffer bits out) = length out + (bits + 6 * length vs) div 8"
proof (induction vs arbitrary: buffer bits out)
  case Nil
  then show ?case by auto
next
  case (Cons v vs)
  from Cons.prems show ?case
    by (elim disjE) (simp_all add: Cons.IH Let_def)
qed

lemma length_those: "those (map f xs) = Some ys \<Longrightarrow> length ys = length xs"
  by (induction xs arbitrary: ys) (auto split: option.splits)

lemma length_atob:
  "atob base64 = Inr binaryString \<Longrightarrow>
     length binaryString = length (base64_payload base64) * 3 div 4"
proof -
  assume a: "atob base64 = Inr binaryString"
  then obtain vs where vs: "those (map base64_index (base64_payload base64)) = Some vs"
    and bin: "binaryString = decode_units vs 0 0 []"
    by (auto simp: atob_def Let_def split: if_splits option.splits)
  have "length vs = length (base64_payload base64)"
    using vs by (rule length_those)
  then show ?thesis using bin by (simp add: length_decode_units)
qed

subsection \<open>The alphabet\<close>

lemma index_of_nth: "distinct xs \<Longrightarrow> n < length xs \<Longrightarrow> index_of (xs ! n) xs = Some n"
proof (induction xs arbitrary: n)
  case Nil
  then show ?case by simp
next
  case (Cons x xs)
  show ?case
  proof (cases n)
    case 0
    then show ?thesis by simp
  next
    case (Suc m)
    with Cons.prems have "xs ! m \<in> set xs" "x \<notin> set xs" by auto
    then have "xs ! m \<noteq> x" by auto
    with Suc Cons show ?thesis by simp
  qed
qed

lemma distinct_base64_alphabet: "distinct base64_alphabet"
  by (simp add: base64_alphabet_def)

lemma length_base64_alphabet: "length base64_alphabet = 64"
  by (simp add: base64_alphabet_def)

lemma base64_index_char: "v < 64 \<Longrightarrow> base64_index (base64_char v) = Some v"
  by (simp add: base64_index_def base64_char_def index_of_nth distinct_base64_alphabet
      length_base64_alphabet)

lemma base64_char_in_alphabet: "v < 64 \<Longrightarrow> base64_char v \<in> set base64_alphabet"
  by (simp add: base64_char_def length_base64_alphabet)

lemma alphabet_not_whitespace: "c \<in> set base64_alphabet \<Longrightarrow> \<not> is_ascii_whitespace c"
  by (auto simp: base64_alphabet_def is_ascii_whitespace_def)

lemma alphabet_not_padding: "c \<in> set base64_alphabet \<Longrightarrow> c \<noteq> CHR ''=''"
  by (auto simp: base64_alphabet_def)

lemma base64_char_plain:
  "v < 64 \<Longrightarrow> \<not> is_ascii_whitespace (base64_char v)"
  "v < 64 \<Longrightarrow> base64_char v \<noteq> CHR ''=''"
  using alphabet_not_whitespace alphabet_not_padding base64_char_in_alphabet by blast+

subsection \<open>The reference encoder\<close>

lemma sextet_bounds:
  "unat (a :: 8 word) div 4 < 64"
  "unat (a :: 8 word) mod 4 * 16 < 64"
  "unat (a :: 8 word) mod 4 * 16 + unat (b :: 8 word) div 16 < 64"
  "unat (b :: 8 word) mod 16 * 4 < 64"
  "unat (b :: 8 word) mod 16 * 4 + unat (c :: 8 word) div 64 < 64"
  "unat (c :: 8 word) mod 64 < 64"
proof -
  have "unat a < 256" "unat b < 256" "unat c < 256"
    using unsigned_less [of a] unsigned_less [of b] unsigned_less [of c] by simp_all
  then show "unat a div 4 < 64" "unat a mod 4 * 16 < 64"
    "unat a mod 4 * 16 + unat b div 16 < 64" "unat b mod 16 * 4 < 64"
    "unat b mod 16 * 4 + unat c div 64 < 64" "unat c mod 64 < 64"
    by arith+
qed

lemma padding_not_whitespace: "\<not> is_ascii_whitespace (CHR ''='')"
  by (simp add: is_ascii_whitespace_def)

lemma encodeBase64_no_whitespace:
  "filter (\<lambda>c. \<not> is_ascii_whitespace c) (encodeBase64 b) = encodeBase64 b"
  by (induction b rule: encodeBase64.induct)
    (simp_all add: base64_char_plain sextet_bounds padding_not_whitespace)

lemma length_encodeBase64: "length (encodeBase64 b) mod 4 = 0"
  by (induction b rule: encodeBase64.induct) simp_all

lemma encodeBase64_Nil_or_long: "encodeBase64 b = [] \<or> 2 \<le> length (encodeBase64 b)"
  by (cases b rule: encodeBase64.cases) simp_all

lemma remove_padding_append:
  "2 \<le> length xs \<Longrightarrow> remove_padding (p @ xs) = p @ remove_padding xs"
  by (simp add: remove_padding_def)

lemma remove_padding_Nil: "remove_padding [] = []"
  by (simp add: remove_padding_def)

lemma remove_padding_group:
  assumes "c3 \<noteq> CHR ''=''"
  shows "remove_padding ([c0, c1, c2, c3] @ encodeBase64 rest) =
           [c0, c1, c2, c3] @ remove_padding (encodeBase64 rest)"
proof (cases "encodeBase64 rest = []")
  case True
  with assms show ?thesis by (simp add: remove_padding_def)
next
  case False
  with encodeBase64_Nil_or_long [of rest] have "2 \<le> length (encodeBase64 rest)" by simp
  then show ?thesis by (rule remove_padding_append)
qed

lemma payload_encodeBase64:
  "base64_payload (encodeBase64 b) = remove_padding (encodeBase64 b)"
  by (simp add: base64_payload_def encodeBase64_no_whitespace length_encodeBase64)

lemma regroup_one: "(qa::nat) * 64 + ra * 16 = (qa * 4 + ra) * 16"
  by (simp add: algebra_simps)

lemma regroup_two:
  "((qa::nat) * 64 + (ra * 16 + qb)) * 64 + rb * 4 = ((qa * 4 + ra) * 256 + (qb * 16 + rb)) * 4"
  by (simp add: algebra_simps)

lemma regroup_three:
  "(((qa::nat) * 64 + (ra * 16 + qb)) * 64 + (rb * 4 + qc)) * 64 + rc =
     ((qa * 4 + ra) * 256 + (qb * 16 + rb)) * 256 + (qc * 64 + rc)"
  by (simp add: algebra_simps)

lemma join_one: "((A::nat) div 4 * 64 + A mod 4 * 16) div 16 = A"
  by (simp only: regroup_one div_mult_mod_eq)

lemma join_two:
  "((A::nat) div 4 * 64 + (A mod 4 * 16 + B div 16)) * 64 + B mod 16 * 4 = (A * 256 + B) * 4"
  by (simp only: regroup_two div_mult_mod_eq)

lemma join_three:
  "(((A::nat) div 4 * 64 + (A mod 4 * 16 + B div 16)) * 64 + (B mod 16 * 4 + C div 64)) * 64 + C mod 64 =
     (A * 256 + B) * 256 + C"
  by (simp only: regroup_three div_mult_mod_eq)

lemma split_two:
  assumes "(B::nat) < 256"
  shows "(A * 256 + B) * 4 div 1024 = A" "(A * 256 + B) * 4 div 4 mod 256 = B"
proof -
  have "(A * 256 + B) * 4 div 4 = A * 256 + B" by simp
  moreover have "(A * 256 + B) div 256 = A" "(A * 256 + B) mod 256 = B" using assms by simp_all
  moreover have "(A * 256 + B) * 4 div 1024 = (A * 256 + B) * 4 div 4 div 256"
    by (simp only: div_mult2_eq [symmetric]) simp
  ultimately show "(A * 256 + B) * 4 div 1024 = A" "(A * 256 + B) * 4 div 4 mod 256 = B"
    by simp_all
qed

lemma split_three:
  assumes "(B::nat) < 256" "(C::nat) < 256"
  shows "((A * 256 + B) * 256 + C) div 65536 = A"
    "((A * 256 + B) * 256 + C) div 256 mod 256 = B"
    "((A * 256 + B) * 256 + C) mod 256 = C"
proof -
  have d: "((A * 256 + B) * 256 + C) div 256 = A * 256 + B" using assms(2) by simp
  have "(A * 256 + B) div 256 = A" "(A * 256 + B) mod 256 = B" using assms(1) by simp_all
  moreover have "((A * 256 + B) * 256 + C) div 65536 = ((A * 256 + B) * 256 + C) div 256 div 256"
    by (simp only: div_mult2_eq [symmetric]) simp
  ultimately show "((A * 256 + B) * 256 + C) div 65536 = A"
    "((A * 256 + B) * 256 + C) div 256 mod 256 = B"
    by (simp_all only: d)
  have "((A * 256 + B) * 256 + C) mod 256 = C mod 256" by (rule mod_mult_self3)
  then show "((A * 256 + B) * 256 + C) mod 256 = C" using assms(2) by simp
qed

lemma decode_tail_two:
  "decode_units [s0, s1] 0 0 out = out @ [char_of ((s0 * 64 + s1) div 16)]"
  by (simp add: Let_def)

lemma decode_tail_three:
  "decode_units [s0, s1, s2] 0 0 out =
     out @ [char_of (((s0 * 64 + s1) * 64 + s2) div 1024),
            char_of (((s0 * 64 + s1) * 64 + s2) div 4 mod 256)]"
  by (simp add: Let_def)

lemma decode_group:
  "decode_units (s0 # s1 # s2 # s3 # vs) 0 0 out =
     decode_units vs 0 0
       (out @ [char_of ((((s0 * 64 + s1) * 64 + s2) * 64 + s3) div 65536),
               char_of ((((s0 * 64 + s1) * 64 + s2) * 64 + s3) div 256 mod 256),
               char_of ((((s0 * 64 + s1) * 64 + s2) * 64 + s3) mod 256)])"
  by (simp add: Let_def)

lemma decode_one:
  fixes a :: "8 word"
  shows "decode_units [unat a div 4, unat a mod 4 * 16] 0 0 out = out @ [unit_of_byte a]"
  by (simp only: decode_tail_two join_one unit_of_byte_def)

lemma decode_two:
  fixes a b :: "8 word"
  shows "decode_units [unat a div 4, unat a mod 4 * 16 + unat b div 16, unat b mod 16 * 4] 0 0 out =
           out @ [unit_of_byte a, unit_of_byte b]"
proof -
  have b: "unat b < 256" using unsigned_less [of b] by simp
  show ?thesis by (simp only: decode_tail_three join_two split_two [OF b] unit_of_byte_def)
qed

lemma decode_three:
  fixes a b c :: "8 word"
  shows "decode_units (unat a div 4 # (unat a mod 4 * 16 + unat b div 16) #
                       (unat b mod 16 * 4 + unat c div 64) # unat c mod 64 # vs) 0 0 out =
           decode_units vs 0 0 (out @ [unit_of_byte a, unit_of_byte b, unit_of_byte c])"
proof -
  have b: "unat b < 256" and c: "unat c < 256"
    using unsigned_less [of b] unsigned_less [of c] by simp_all
  show ?thesis by (simp only: decode_group join_three split_three [OF b c] unit_of_byte_def)
qed

lemma decode_encodeBase64:
  "length (remove_padding (encodeBase64 b)) mod 4 \<noteq> 1 \<and>
   (\<exists>vs. those (map base64_index (remove_padding (encodeBase64 b))) = Some vs \<and>
         (\<forall>out. decode_units vs 0 0 out = out @ map unit_of_byte b))"
proof (induction b rule: encodeBase64.induct)
  case 1
  show ?case by (simp add: remove_padding_Nil)
next
  case (2 a)
  have "remove_padding (encodeBase64 [a]) =
          [base64_char (unat a div 4), base64_char (unat a mod 4 * 16)]"
    by (simp add: remove_padding_def)
  then show ?case
    by (simp add: base64_index_char sextet_bounds decode_one del: decode_units.simps)
next
  case (3 a b)
  have "remove_padding (encodeBase64 [a, b]) =
          [base64_char (unat a div 4), base64_char (unat a mod 4 * 16 + unat b div 16),
           base64_char (unat b mod 16 * 4)]"
    by (simp add: remove_padding_def base64_char_plain sextet_bounds)
  then show ?case
    by (simp add: base64_index_char sextet_bounds decode_two del: decode_units.simps)
next
  case (4 a b c rest)
  then obtain vs where len: "length (remove_padding (encodeBase64 rest)) mod 4 \<noteq> 1"
    and vs: "those (map base64_index (remove_padding (encodeBase64 rest))) = Some vs"
    and dec: "\<And>out. decode_units vs 0 0 out = out @ map unit_of_byte rest"
    by blast
  have rp: "remove_padding (encodeBase64 (a # b # c # rest)) =
          [base64_char (unat a div 4), base64_char (unat a mod 4 * 16 + unat b div 16),
           base64_char (unat b mod 16 * 4 + unat c div 64), base64_char (unat c mod 64)]
          @ remove_padding (encodeBase64 rest)"
    using remove_padding_group [of "base64_char (unat c mod 64)"]
    by (simp add: base64_char_plain sextet_bounds)
  have "those (map base64_index (remove_padding (encodeBase64 (a # b # c # rest)))) =
          Some (unat a div 4 # (unat a mod 4 * 16 + unat b div 16) #
                (unat b mod 16 * 4 + unat c div 64) # unat c mod 64 # vs)"
    by (subst rp) (simp add: base64_index_char sextet_bounds vs)
  moreover have "decode_units (unat a div 4 # (unat a mod 4 * 16 + unat b div 16) #
                (unat b mod 16 * 4 + unat c div 64) # unat c mod 64 # vs) 0 0 out =
                out @ map unit_of_byte (a # b # c # rest)" for out
    by (simp add: decode_three dec del: decode_units.simps)
  moreover have "length (remove_padding (encodeBase64 (a # b # c # rest))) mod 4 \<noteq> 1"
    using len by (subst rp) simp
  ultimately show ?case by blast
qed

lemma atob_encodeBase64: "atob (encodeBase64 b) = Inr (map unit_of_byte b)"
proof -
  from decode_encodeBase64 [of b] obtain vs
    where len: "length (remove_padding (encodeBase64 b)) mod 4 \<noteq> 1"
      and vs: "those (map base64_index (remove_padding (encodeBase64 b))) = Some vs"
      and dec: "decode_units vs 0 0 [] = map unit_of_byte b"
    by auto
  then show ?thesis by (simp add: atob_def payload_encodeBase64)
qed

lemma byte_of_unit_of_byte: "byte_of_unit (unit_of_byte x) = x"
proof -
  have "unat x < 256" using unsigned_less [of x] by simp
  then have "(of_char (char_of (unat x)) :: nat) = unat x" by simp
  then show ?thesis by (simp add: byte_of_unit_def unit_of_byte_def)
qed

subsection \<open>When \<open>atob\<close> fails, and what a \<open>Blob\<close> stores\<close>

lemma index_of_None: "index_of x xs = None \<longleftrightarrow> x \<notin> set xs"
  by (induction xs) auto

lemma those_None: "those (map f xs) = None \<longleftrightarrow> (\<exists>x \<in> set xs. f x = None)"
  by (induction xs) (auto split: option.splits)

lemma those_base64_index_None:
  "those (map base64_index p) = None \<longleftrightarrow> (\<exists>c \<in> set p. c \<notin> set base64_alphabet)"
  by (simp add: those_None base64_index_def index_of_None)

lemma atob_fails_iff:
  "atob data = Inl InvalidCharacterError \<longleftrightarrow>
     length (base64_payload data) mod 4 = 1 \<or>
     (\<exists>c \<in> set (base64_payload data). c \<notin> set base64_alphabet)"
proof (cases "those (map base64_index (base64_payload data))")
  case None
  then show ?thesis
    using those_base64_index_None [of "base64_payload data"] by (simp add: atob_def Let_def)
next
  case (Some vs)
  then show ?thesis
    using those_base64_index_None [of "base64_payload data"] by (simp add: atob_def Let_def)
qed

lemma length_Blob_of_string:
  "length (Blob_of_string s) = length s + length (filter (\<lambda>c. 128 \<le> (of_char c :: nat)) s)"
  by (induction s) (simp_all add: Blob_of_string_def utf8_encode_unit_def Let_def)

lemma base64ToFile_eq:
  "base64ToFile base64 filename =
     (case atob base64 of
        Inl e \<Rightarrow> Inl e
      | Inr binaryString \<Rightarrow>
          Inr \<lparr>file_name = filename, file_type = [], file_bytes = Blob_of_string binaryString\<rparr>)"
  by (simp add: base64ToFile_def new_File_def split: sum.splits)

subsection \<open>Three inputs, evaluated\<close>

lemma atob_slash_w: "atob ''/w=='' = Inr [CHR 0xFF]"
  by (simp add: atob_def base64_payload_def is_ascii_whitespace_def remove_padding_def
      base64_index_def base64_alphabet_def Let_def char_of_def bit_Suc_0_iff)

lemma atob_Hello: "atob ''SGVsbG8='' = Inr ''Hello''"
  by (simp add: atob_def base64_payload_def is_ascii_whitespace_def remove_padding_def
      base64_index_def base64_alphabet_def Let_def char_of_def bit_Suc_0_iff)

lemma atob_not_valid: "atob ''not-valid-base64!@#'' = Inl InvalidCharacterError"
  by (simp add: atob_def base64_payload_def is_ascii_whitespace_def
      base64_index_def base64_alphabet_def Let_def)

lemma payload_Hello: "base64_payload ''SGVsbG8='' = ''SGVsbG8''"
  by (simp add: base64_payload_def is_ascii_whitespace_def remove_padding_def)

subsection \<open>The claims on the codec\<close>

text \<open>
  Claim C5. The round-trip law: for every byte sequence \<open>b\<close>, decoding the standard
  base64 encoding of \<open>b\<close> with \<open>base64ToArrayBuffer\<close> succeeds and returns \<open>b\<close>.
\<close>

theorem base64_round_trip: "base64ToArrayBuffer (encodeBase64 b) = Inr b"
  by (simp add: base64ToArrayBuffer_eq atob_encodeBase64 byte_of_unit_of_byte comp_def)

theorem base64_round_trip_witness:
  "base64ToArrayBuffer (encodeBase64 [0, 255, 128, 7]) = Inr [0, 255, 128, 7]"
  by (rule base64_round_trip)

text \<open>
  Claim C6. For every input that \<open>atob\<close> accepts, the buffer returned by
  \<open>base64ToArrayBuffer\<close> holds one byte for each code unit of the decoded binary
  string, in order, so its length is the decoded length: three bytes for every four
  characters of the payload, rounded down. Nothing is cut and nothing is added.
\<close>

theorem base64ToArrayBuffer_length:
  assumes "atob base64 = Inr binaryString"
  shows "base64ToArrayBuffer base64 = Inr (map byte_of_unit binaryString) \<and>
         length (map byte_of_unit binaryString) = length binaryString \<and>
         length binaryString = length (base64_payload base64) * 3 div 4"
  using assms by (simp add: base64ToArrayBuffer_eq length_atob)

theorem base64ToArrayBuffer_length_witness:
  "atob ''SGVsbG8='' = Inr ''Hello'' \<and>
   base64ToArrayBuffer ''SGVsbG8='' = Inr [72, 101, 108, 108, 111] \<and>
   length ''Hello'' = length ''SGVsbG8'' * 3 div 4"
  using base64ToArrayBuffer_length [OF atob_Hello] atob_Hello
  by (simp add: byte_of_unit_def payload_Hello)

text \<open>
  Claim C7. For every input that \<open>atob\<close> rejects, \<open>base64ToArrayBuffer\<close> ends with
  the same exception: it is not caught, and no bytes are returned.
\<close>

theorem base64ToArrayBuffer_throws:
  "atob base64 = Inl e \<Longrightarrow>
     base64ToArrayBuffer base64 = Inl e \<and> \<not> (\<exists>bytes. base64ToArrayBuffer base64 = Inr bytes)"
  by (simp add: base64ToArrayBuffer_def)

theorem base64ToArrayBuffer_throws_witness:
  "atob ''not-valid-base64!@#'' = Inl InvalidCharacterError \<and>
   base64ToArrayBuffer ''not-valid-base64!@#'' = Inl InvalidCharacterError"
  using base64ToArrayBuffer_throws [OF atob_not_valid] atob_not_valid by simp

text \<open>
  Claim C2. The specification promises that the file made by \<open>base64ToFile\<close> has as
  many bytes as the decoded payload. The code gives the binary string itself to the
  \<open>Blob\<close> constructor, which stores a string in UTF-8: for the payload \<open>/w==\<close>,
  the single byte 255, the file holds the two bytes 195 and 191, while
  \<open>base64ToArrayBuffer\<close> returns the one byte 255. The file name is the one given
  (lemma \<open>base64ToFile_eq\<close>).
\<close>

theorem base64ToFile_high_byte:
  "base64ToArrayBuffer ''/w=='' = Inr [255] \<and>
   base64ToFile ''/w=='' ''a.bin'' =
     Inr \<lparr>file_name = ''a.bin'', file_type = [], file_bytes = [195, 191]\<rparr>"
  by (simp add: base64ToArrayBuffer_eq base64ToFile_eq atob_slash_w byte_of_unit_def
      Blob_of_string_def utf8_encode_unit_def)

end
